theory Spec2Isabelle
  imports Main "HOL-Library.Word"
begin

unbundle bit_operations_syntax

section \<open>Bytes, strings and errors\<close>

text \<open>
  A Go \<^verbatim>\<open>byte\<close> is an 8-bit word; a Go \<^verbatim>\<open>[]byte\<close> is a list of them. A Go
  \<^verbatim>\<open>string\<close> is an immutable byte sequence, so \<^verbatim>\<open>string(b)\<close> keeps the bytes
  of \<^verbatim>\<open>b\<close> as they are. A string literal of the source is written
  \<open>bytes ''...''\<close> here.
\<close>

type_synonym byte = "8 word"

type_synonym go_string = "byte list"

abbreviation bytes :: "string \<Rightarrow> go_string" where
  "bytes s \<equiv> map of_char s"

text \<open>
  The error values of \<^verbatim>\<open>github.com/ebfe/scard\<close> are opaque to this package, which
  only wraps them; they are identified by their message.
\<close>

type_synonym cause = string

text \<open>
  The run-time panics of Go for the expressions of the source: \<^verbatim>\<open>xs[i]\<close> with
  \<^verbatim>\<open>i\<close> out of range, and a slice expression with a bound out of range.
\<close>

datatype panic = IndexOutOfRange | SliceBoundsOutOfRange

text \<open>
  One constructor per sentinel error of the package (\<^verbatim>\<open>errFailedToConnect\<close>, ...)
  carrying what \<^verbatim>\<open>fmt.Errorf\<close> wraps with it. \<open>Code\<close> is an
  \<^verbatim>\<open>iso7816.Code\<close> (the two status bytes) returned as the error itself.
  \<open>TruncatedTLV\<close> is the decoding error of the specification's codec.
\<close>

datatype error =
    FailedToConnect cause
  | FailedToDisconnect cause
  | FailedToEstablishContext cause
  | FailedToListReaders cause
  | FailedToListSuitableReader nat
  | FailedToReleaseContext cause
  | FailedToTransmit cause
  | UnknownTag byte
  | Code "byte list"
  | TruncatedTLV
  | Panic panic

section \<open>TLV entries and the instruction table\<close>

text \<open>The struct \<^verbatim>\<open>tv\<close> (fields \<^verbatim>\<open>tag\<close>, \<^verbatim>\<open>value\<close>); \<^verbatim>\<open>tvs\<close> is \<open>tv list\<close>.\<close>

record tv =
  tv_tag :: byte
  tv_value :: "byte list"

definition tagNameList :: byte where
  "tagNameList = 0x72"

definition insList :: byte where
  "insList = 0xA1"

definition insSendRemaining :: byte where
  "insSendRemaining = 0xA5"

section \<open>The PC/SC transport\<close>

text \<open>
  The package reaches the reader through \<^verbatim>\<open>github.com/ebfe/scard\<close>:
  \<^verbatim>\<open>EstablishContext\<close>, \<^verbatim>\<open>ListReaders\<close>, \<^verbatim>\<open>Connect\<close>, \<^verbatim>\<open>Transmit\<close>,
  \<^verbatim>\<open>Disconnect\<close> and \<^verbatim>\<open>Release\<close>. That library is not part of the repository.
  It is a record of functions over the state \<open>'d\<close> of the PC/SC subsystem and the
  token: each takes the state and returns its result with the new state. Contexts and
  cards are handles. A Go \<^verbatim>\<open>error\<close> result that is \<^verbatim>\<open>nil\<close> is \<open>None\<close>, or the
  \<open>Inr\<close> branch where a value comes with it.
\<close>

datatype share_mode = ShareExclusive | ShareShared | ShareDirect

datatype protocol = ProtocolUndefined | ProtocolT0 | ProtocolT1 | ProtocolAny

datatype disposition = LeaveCard | ResetCard | UnpowerCard | EjectCard

record 'd scard =
  EstablishContext :: "'d \<Rightarrow> (cause + nat) \<times> 'd"
  ListReaders :: "nat \<Rightarrow> 'd \<Rightarrow> (cause + go_string list) \<times> 'd"
  Connect :: "nat \<Rightarrow> go_string \<Rightarrow> share_mode \<Rightarrow> protocol \<Rightarrow> 'd \<Rightarrow> (cause + nat) \<times> 'd"
  Transmit :: "nat \<Rightarrow> byte list \<Rightarrow> 'd \<Rightarrow> (cause + byte list) \<times> 'd"
  Disconnect :: "nat \<Rightarrow> disposition \<Rightarrow> 'd \<Rightarrow> cause option \<times> 'd"
  Release :: "nat \<Rightarrow> 'd \<Rightarrow> cause option \<times> 'd"

text \<open>
  What the package does to the outside is the sequence of its calls into the library.
  The world is the state of the transport together with the trace of the calls made so
  far, and \<open>call\<close> performs one call: it runs the library function on the transport's
  state and appends the event.
\<close>

datatype event =
    EvEstablishContext
  | EvListReaders
  | EvConnect go_string share_mode protocol
  | EvTransmit "byte list"
  | EvDisconnect disposition
  | EvRelease

record 'd world =
  trace :: "event list"
  dev :: 'd

definition call :: "event \<Rightarrow> ('d \<Rightarrow> 'r \<times> 'd) \<Rightarrow> 'd world \<Rightarrow> 'r \<times> 'd world" where
  "call ev f w = (case f (dev w) of (r, d') \<Rightarrow> (r, \<lparr>trace = trace w @ [ev], dev = d'\<rparr>))"

section \<open>Sessions: New and Close\<close>

text \<open>
  The struct \<^verbatim>\<open>OATH\<close>; its fields \<^verbatim>\<open>card\<close> and \<^verbatim>\<open>context\<close> are \<open>oath_card\<close>
  and \<open>oath_context\<close>. \<^verbatim>\<open>Clock\<close> is a function value, \<^verbatim>\<open>time.Now\<close> in every
  session the package builds; \<^verbatim>\<open>Period\<close> is a \<^verbatim>\<open>time.Duration\<close>, a count of
  nanoseconds.
\<close>

datatype clock = TimeNow

definition Second :: int where
  "Second = 1000000000"

record OATH =
  Clock :: clock
  Period :: int
  oath_card :: nat
  oath_context :: nat








text \<open>\<^verbatim>\<open>Close\<close>: the result is the error, \<open>None\<close> for \<^verbatim>\<open>nil\<close>.\<close>

definition Close :: "'d scard \<Rightarrow> OATH \<Rightarrow> 'd world \<Rightarrow> error option \<times> 'd world" where
  "Close sc oath w =
     (case call (EvDisconnect LeaveCard) (Disconnect sc (oath_card oath) LeaveCard) w of
        (Some err, w1) \<Rightarrow> (Some (FailedToDisconnect err), w1)
      | (None, w1) \<Rightarrow>
          (case call EvRelease (Release sc (oath_context oath)) w1 of
             (Some err, w2) \<Rightarrow> (Some (FailedToReleaseContext err), w2)
           | (None, w2) \<Rightarrow> (None, w2)))"

section \<open>The APDU transceiver: send\<close>

text \<open>
  Modelled from the spec: the method \<^verbatim>\<open>IsMore\<close> of \<^verbatim>\<open>iso7816.Code\<close> (package
  \<^verbatim>\<open>internal/iso7816\<close> is missing). The specification's wire format: the status
  word \<^verbatim>\<open>0x61xx\<close> is more data, with the count \<^verbatim>\<open>xx\<close>.
\<close>

definition IsMore :: "byte list \<Rightarrow> bool" where
  "IsMore code = (length code = 2 \<and> code ! 0 = 0x61)"

text \<open>
  Modelled from the spec: the method \<^verbatim>\<open>IsSuccess\<close> of \<^verbatim>\<open>iso7816.Code\<close> (package
  \<^verbatim>\<open>internal/iso7816\<close> is missing). The specification's wire format: the status
  word \<^verbatim>\<open>0x9000\<close> is success; anything else is a failure code.
\<close>

definition IsSuccess :: "byte list \<Rightarrow> bool" where
  "IsSuccess code = (code = [0x90, 0x00])"

text \<open>
  The \<^verbatim>\<open>for\<close> loop of \<^verbatim>\<open>send\<close>, with the variables \<^verbatim>\<open>send\<close> and \<^verbatim>\<open>results\<close>
  as arguments. It runs for as long as the card answers "more data", so it is a partial
  function: \<open>None\<close> is the run that never returns. \<^verbatim>\<open>res[len(res)-2:]\<close> panics when
  \<^verbatim>\<open>res\<close> has fewer than two bytes. The functions \<^verbatim>\<open>write\<close> and \<^verbatim>\<open>read\<close> of the
  package's TLV codec are not among the sources; \<^verbatim>\<open>send\<close> takes them as the arguments
  \<open>wr\<close> and \<open>rd\<close>, with the types their calls have in \<^verbatim>\<open>send\<close>.
\<close>

partial_function (option) send_loop ::
  "'d scard \<Rightarrow> (byte list \<Rightarrow> tv list) \<Rightarrow> nat \<Rightarrow> byte list \<Rightarrow> byte list \<Rightarrow> 'd world
     \<Rightarrow> ((error + tv list) \<times> 'd world) option" where
  "send_loop sc rd c send results w =
     (case call (EvTransmit send) (Transmit sc c send) w of
        (Inl err, w') \<Rightarrow> Some (Inl (FailedToTransmit err), w')
      | (Inr res, w') \<Rightarrow>
          if length res < 2 then Some (Inl (Panic SliceBoundsOutOfRange), w')
          else
            let code = drop (length res - 2) res;
                results' = results @ take (length res - 2) res
            in if IsMore code then send_loop sc rd c [0x00, 0xa5, 0x00, 0x00] results' w'
               else if IsSuccess code then Some (Inr (rd results'), w')
               else Some (Inl (Code code), w'))"

definition send ::
  "'d scard \<Rightarrow> (byte \<Rightarrow> byte list list \<Rightarrow> byte list) \<Rightarrow> (byte list \<Rightarrow> tv list) \<Rightarrow> OATH
     \<Rightarrow> byte \<Rightarrow> byte \<Rightarrow> byte \<Rightarrow> byte \<Rightarrow> byte list list \<Rightarrow> 'd world
     \<Rightarrow> ((error + tv list) \<times> 'd world) option" where
  "send sc wr rd oath cla ins p1 p2 data w =
     send_loop sc rd (oath_card oath) ([cla, ins, p1, p2] @ wr 0x00 data) [] w"

section \<open>The credential list command (list.go)\<close>

text \<open>
  The struct \<^verbatim>\<open>Name\<close>. \<^verbatim>\<open>Algorithm\<close> and \<^verbatim>\<open>Type\<close> are named types of the
  package converted from a \<^verbatim>\<open>byte\<close>; they are kept as the byte they are converted
  from.
\<close>

record Name =
  Algorithm :: byte
  Type :: byte
  Name :: go_string

text \<open>
  The loop of \<^verbatim>\<open>List\<close> over the decoded entries, with \<^verbatim>\<open>names\<close> as the
  accumulator. On an empty value both \<^verbatim>\<open>tv.value[0]\<close> and \<^verbatim>\<open>tv.value[1:]\<close> are
  out of range. Go does not fix the order in which these operands of the composite
  literal are evaluated; the compiled program panics in the slice expression
  \<^verbatim>\<open>tv.value[1:]\<close>, with slice bounds out of range [1:0], and that is the panic of
  the model. It comes before anything is appended.
\<close>

fun List_entries :: "tv list \<Rightarrow> Name list \<Rightarrow> error + Name list" where
  "List_entries [] names = Inr names"
| "List_entries (e # res) names =
     (if tv_tag e = 0x72 then
        (case tv_value e of
           [] \<Rightarrow> Inl (Panic SliceBoundsOutOfRange)
         | b # rest \<Rightarrow>
             List_entries res
               (names @ [\<lparr>Algorithm = b AND 0x0f, Type = b AND 0xf0, Name = rest\<rparr>]))
      else Inl (UnknownTag (tv_tag e)))"

definition List ::
  "'d scard \<Rightarrow> (byte \<Rightarrow> byte list list \<Rightarrow> byte list) \<Rightarrow> (byte list \<Rightarrow> tv list) \<Rightarrow> OATH
     \<Rightarrow> 'd world \<Rightarrow> ((error + Name list) \<times> 'd world) option" where
  "List sc wr rd oath w =
     (case send sc wr rd oath 0x00 insList 0x00 0x00 [] w of
        None \<Rightarrow> None
      | Some (Inl err, w') \<Rightarrow> Some (Inl err, w')
      | Some (Inr res, w') \<Rightarrow> Some (List_entries res [], w'))"

section \<open>The TLV codec of the specification\<close>

text \<open>
  The TLV codec (\<^verbatim>\<open>write\<close> and \<^verbatim>\<open>read\<close> in the package, \<^verbatim>\<open>Encode\<close> and
  \<^verbatim>\<open>Decode\<close> in the specification) is not among the sources. The definitions of this
  section follow the specification: the codec encodes a sequence of (tag, value) pairs
  into a flat byte buffer and decodes a flat byte buffer back into that sequence; an
  encoded buffer is a concatenation of (tag, length, value) triples with no trailing
  bytes.
\<close>

text \<open>
  Modelled from the spec: the bytes of a length in the extended form of \<^verbatim>\<open>Encode\<close>,
  big-endian, without leading zero bytes (the codec is missing).
\<close>

fun be_bytes :: "nat \<Rightarrow> byte list" where
  "be_bytes n = (if n < 256 then [of_nat n] else be_bytes (n div 256) @ [of_nat (n mod 256)])"

declare be_bytes.simps [simp del]

text \<open>
  Modelled from the spec: the number that the length bytes of the extended form stand
  for in \<^verbatim>\<open>Decode\<close>, big-endian (the codec is missing).
\<close>

fun be_nat :: "byte list \<Rightarrow> nat \<Rightarrow> nat" where
  "be_nat [] acc = acc"
| "be_nat (b # bs) acc = be_nat bs (acc * 256 + unat b)"

text \<open>
  Modelled from the spec: the length field of \<^verbatim>\<open>Encode\<close> (the codec is missing). The
  length is a single byte if it is at most 127, else the extended form: the most
  significant bit is set on the first length byte, which says how many bytes follow, and
  these encode the length, big-endian.
\<close>

definition encode_length :: "nat \<Rightarrow> byte list" where
  "encode_length n =
     (if n \<le> 127 then [of_nat n]
      else of_nat (0x80 + length (be_bytes n)) # be_bytes n)"

text \<open>
  Modelled from the spec: the length field read by \<^verbatim>\<open>Decode\<close>, in the single or the
  extended form, with the bytes after it (the codec is missing). \<open>None\<close> is a buffer
  that ends inside the length field.
\<close>

definition decode_length :: "byte list \<Rightarrow> (nat \<times> byte list) option" where
  "decode_length buf =
     (case buf of
        [] \<Rightarrow> None
      | b # bs \<Rightarrow>
          if b AND 0x80 = 0 then Some (unat b, bs)
          else let k = unat (b AND 0x7f)
               in if length bs < k then None else Some (be_nat (take k bs) 0, drop k bs))"

text \<open>
  Modelled from the spec: one (tag, length, value) triple of \<^verbatim>\<open>Encode\<close> (the codec is
  missing).
\<close>

definition encode_entry :: "byte \<Rightarrow> byte list \<Rightarrow> byte list" where
  "encode_entry t v = t # encode_length (length v) @ v"

text \<open>
  Modelled from the spec: \<^verbatim>\<open>Encode\<close> on a sequence of entries, the concatenation of
  their triples in order (the codec is missing).
\<close>

definition Encode :: "tv list \<Rightarrow> byte list" where
  "Encode es = concat (map (\<lambda>e. encode_entry (tv_tag e) (tv_value e)) es)"

text \<open>
  Modelled from the spec: \<^verbatim>\<open>Decode\<close> (the codec is missing). It repeatedly reads a tag
  byte, a length and that many value bytes, appending an entry, until the buffer is
  exhausted, and fails with \<^verbatim>\<open>TruncatedTLV\<close> if a declared length exceeds the
  remaining buffer. A buffer that ends inside a length field is truncated as well.
\<close>

function Decode :: "byte list \<Rightarrow> error + tv list" where
  "Decode [] = Inr []"
| "Decode (t # buf) =
     (case decode_length buf of
        None \<Rightarrow> Inl TruncatedTLV
      | Some (n, rest) \<Rightarrow>
          if length rest < n then Inl TruncatedTLV
          else (case Decode (drop n rest) of
                  Inl err \<Rightarrow> Inl err
                | Inr es \<Rightarrow> Inr (\<lparr>tv_tag = t, tv_value = take n rest\<rparr> # es)))"
  by pat_completeness auto
termination
proof (relation "measure length")
  show "wf (measure length)" by simp
next
  fix t buf x2 n rest
  assume "decode_length buf = Some x2" "(n, rest) = x2" "\<not> length rest < n"
  then have "length rest \<le> length buf"
    by (auto simp: decode_length_def Let_def split: list.splits if_splits)
  then show "(drop n rest, t # buf) \<in> measure length" by simp
qed

text \<open>
  Modelled from the spec: \<^verbatim>\<open>Encode(pad, values...)\<close> with the type \<^verbatim>\<open>write\<close> has in
  \<^verbatim>\<open>send\<close> (the codec is missing): each value is framed with the tag \<open>pad\<close>.
\<close>

definition write_spec :: "byte \<Rightarrow> byte list list \<Rightarrow> byte list" where
  "write_spec pad values = Encode (map (\<lambda>v. \<lparr>tv_tag = pad, tv_value = v\<rparr>) values)"

text \<open>
  Modelled from the spec: \<^verbatim>\<open>Decode\<close> with the type \<^verbatim>\<open>read\<close> has in \<^verbatim>\<open>send\<close>,
  where it has no error result (the codec is missing). It gives the entries of a buffer
  that \<open>Decode\<close> accepts and is applied to such buffers only.
\<close>

definition read_spec :: "byte list \<Rightarrow> tv list" where
  "read_spec buf = (case Decode buf of Inl err \<Rightarrow> [] | Inr es \<Rightarrow> es)"

section \<open>Notions of the specification\<close>

text \<open>
  The successive responses of a transport: what it answers, and the state it is left in,
  when the commands of a list are transmitted to a card one after the other.
\<close>

fun transmits :: "'d scard \<Rightarrow> nat \<Rightarrow> byte list list \<Rightarrow> 'd \<Rightarrow> (cause + byte list) list \<times> 'd" where
  "transmits sc c [] d = ([], d)"
| "transmits sc c (cmd # cmds) d =
     (case Transmit sc c cmd d of (r, d') \<Rightarrow>
        (case transmits sc c cmds d' of (rs, d'') \<Rightarrow> (r # rs, d'')))"


section \<open>A scripted transport\<close>

text \<open>
  An in-memory transport for the concrete runs below: it lists the readers it is given,
  connects to any of them, answers each transmit with the next response of its script
  whatever the command, and lets disconnect and release fail as configured.
\<close>

record script =
  script_readers :: "go_string list"
  script_responses :: "byte list list"
  script_disconnect :: "cause option"
  script_release :: "cause option"

definition scripted :: "script scard" where
  "scripted =
     \<lparr>EstablishContext = (\<lambda>d. (Inr 1, d)),
      ListReaders = (\<lambda>ctx d. (Inr (script_readers d), d)),
      Connect = (\<lambda>ctx reader share proto d. (Inr 2, d)),
      Transmit = (\<lambda>c cmd d.
         case script_responses d of
           [] \<Rightarrow> (Inl ''no response'', d)
         | r # rs \<Rightarrow> (Inr r, d\<lparr>script_responses := rs\<rparr>)),
      Disconnect = (\<lambda>c disp d. (script_disconnect d, d)),
      Release = (\<lambda>ctx d. (script_release d, d))\<rparr>"

definition token :: "byte list list \<Rightarrow> script" where
  "token rs =
     \<lparr>script_readers = [bytes ''ACS Reader'', bytes ''YubiKey 5 NFC''], script_responses = rs,
      script_disconnect = None, script_release = None\<rparr>"

definition session :: OATH where
  "session = \<lparr>Clock = TimeNow, Period = 30 * Second, oath_card = 2, oath_context = 1\<rparr>"

section \<open>Lemmas: the list loop\<close>

lemma List_entries_ok:
  "\<forall>e\<in>set res. tv_tag e = 0x72 \<and> tv_value e \<noteq> [] \<Longrightarrow>
   List_entries res names = Inr (names @ map (\<lambda>e. \<lparr>Algorithm = hd (tv_value e) AND 0x0f,
       Type = hd (tv_value e) AND 0xf0, Name = tl (tv_value e)\<rparr>) res)"
  by (induction res arbitrary: names) (auto split: list.splits)

lemma List_entries_unknown:
  "\<forall>x\<in>set pre. tv_tag x = 0x72 \<and> tv_value x \<noteq> [] \<Longrightarrow> tv_tag e \<noteq> 0x72 \<Longrightarrow>
   List_entries (pre @ e # post) names = Inl (UnknownTag (tv_tag e))"
  by (induction pre arbitrary: names) (auto split: list.splits)

lemma List_entries_empty:
  "\<forall>x\<in>set pre. tv_tag x = 0x72 \<and> tv_value x \<noteq> [] \<Longrightarrow> tv_tag e = 0x72 \<Longrightarrow> tv_value e = [] \<Longrightarrow>
   List_entries (pre @ e # post) names = Inl (Panic SliceBoundsOutOfRange)"
  by (induction pre arbitrary: names) (auto split: list.splits)

lemma List_entries_panic:
  "List_entries res names = Inl (Panic k) \<Longrightarrow>
   \<exists>pre e post. res = pre @ e # post \<and> (\<forall>x\<in>set pre. tv_tag x = 0x72 \<and> tv_value x \<noteq> [])
      \<and> tv_tag e = 0x72 \<and> tv_value e = []"
proof (induction res arbitrary: names)
  case Nil
  then show ?case by simp
next
  case (Cons a res)
  from Cons.prems have tag: "tv_tag a = 0x72" by (auto split: if_splits)
  show ?case
  proof (cases "tv_value a")
    case Nil
    with tag have "a # res = [] @ a # res \<and> (\<forall>x\<in>set []. tv_tag x = 0x72 \<and> tv_value x \<noteq> [])
        \<and> tv_tag a = 0x72 \<and> tv_value a = []" by simp
    then show ?thesis by blast
  next
    case (Cons b rest)
    with Cons.prems tag obtain names' where "List_entries res names' = Inl (Panic k)" by auto
    from Cons.IH[OF this] obtain pre e post where
      r: "res = pre @ e # post" "\<forall>x\<in>set pre. tv_tag x = 0x72 \<and> tv_value x \<noteq> []"
         "tv_tag e = 0x72" "tv_value e = []" by blast
    with tag Cons have "a # res = (a # pre) @ e # post \<and>
        (\<forall>x\<in>set (a # pre). tv_tag x = 0x72 \<and> tv_value x \<noteq> []) \<and> tv_tag e = 0x72 \<and> tv_value e = []"
      by simp
    then show ?thesis by blast
  qed
qed

section \<open>Lemmas: the transmit loop\<close>

lemma send_loop_chain:
  assumes "transmits sc c (cmd # replicate (length chunks) [0x00, 0xa5, 0x00, 0x00]) (dev w) =
             (map (\<lambda>(p, xx). Inr (p @ [0x61, xx])) chunks @ [r], d')"
      and "\<And>res. r = Inr res \<Longrightarrow> 2 \<le> length res \<Longrightarrow> \<not> IsMore (drop (length res - 2) res)"
  shows "send_loop sc rd c cmd acc w =
           Some (case r of
                   Inl err \<Rightarrow> Inl (FailedToTransmit err)
                 | Inr res \<Rightarrow>
                     if length res < 2 then Inl (Panic SliceBoundsOutOfRange)
                     else if IsSuccess (drop (length res - 2) res)
                       then Inr (rd (acc @ concat (map fst chunks) @ take (length res - 2) res))
                       else Inl (Code (drop (length res - 2) res)),
                 \<lparr>trace = trace w @ map EvTransmit (cmd # replicate (length chunks) [0x00, 0xa5, 0x00, 0x00]),
                  dev = d'\<rparr>)"
  using assms(1)
proof (induction chunks arbitrary: cmd acc w)
  case Nil
  then have t: "Transmit sc c cmd (dev w) = (r, d')"
    by (auto split: prod.splits)
  show ?case
  proof (cases r)
    case (Inl err)
    with t show ?thesis by (subst send_loop.simps) (simp add: call_def)
  next
    case (Inr res)
    with t assms(2)[OF Inr] show ?thesis
      by (subst send_loop.simps) (simp add: call_def Let_def)
  qed
next
  case (Cons m chunks)
  obtain q xx where m: "m = (q, xx)" by (cases m)
  from Cons.prems obtain d1 where
    t: "Transmit sc c cmd (dev w) = (Inr (q @ [0x61, xx]), d1)" and
    rest: "transmits sc c ([0x00, 0xa5, 0x00, 0x00] # replicate (length chunks) [0x00, 0xa5, 0x00, 0x00]) d1 =
             (map (\<lambda>(p, xx). Inr (p @ [0x61, xx])) chunks @ [r], d')"
    by (auto simp: m split: prod.splits)
  let ?w1 = "\<lparr>trace = trace w @ [EvTransmit cmd], dev = d1\<rparr>"
  have step: "send_loop sc rd c cmd acc w = send_loop sc rd c [0x00, 0xa5, 0x00, 0x00] (acc @ q) ?w1"
    by (subst send_loop.simps) (simp add: call_def t Let_def IsMore_def)
  have "send_loop sc rd c [0x00, 0xa5, 0x00, 0x00] (acc @ q) ?w1 =
      Some (case r of
                   Inl err \<Rightarrow> Inl (FailedToTransmit err)
                 | Inr res \<Rightarrow>
                     if length res < 2 then Inl (Panic SliceBoundsOutOfRange)
                     else if IsSuccess (drop (length res - 2) res)
                       then Inr (rd ((acc @ q) @ concat (map fst chunks) @ take (length res - 2) res))
                       else Inl (Code (drop (length res - 2) res)),
                 \<lparr>trace = trace ?w1 @ map EvTransmit ([0x00, 0xa5, 0x00, 0x00] # replicate (length chunks) [0x00, 0xa5, 0x00, 0x00]),
                  dev = d'\<rparr>)"
    by (rule Cons.IH) (use rest in simp)
  then show ?case
    by (simp add: step m split: sum.splits)
qed

section \<open>Lemmas: the codec\<close>

lemma be_nat_append: "be_nat (xs @ ys) acc = be_nat ys (be_nat xs acc)"
  by (induction xs arbitrary: acc) auto

lemma be_nat_be_bytes: "be_nat (be_bytes n) 0 = n"
proof (induction n rule: be_bytes.induct)
  case (1 n)
  show ?case
  proof (cases "n < 256")
    case True
    then show ?thesis by (subst be_bytes.simps) (simp add: unat_of_nat)
  next
    case False
    have "unat (of_nat (n mod 256) :: byte) = n mod 256"
      by (simp add: unat_of_nat)
    with False 1 show ?thesis
      by (subst be_bytes.simps) (simp add: be_nat_append)
  qed
qed

lemma length_be_bytes_pos: "0 < length (be_bytes n)"
  by (subst be_bytes.simps) simp

lemma length_be_bytes: "n < 256 ^ k \<Longrightarrow> 0 < k \<Longrightarrow> length (be_bytes n) \<le> k"
proof (induction n arbitrary: k rule: be_bytes.induct)
  case (1 n)
  show ?case
  proof (cases "n < 256")
    case True
    with 1 show ?thesis by (subst be_bytes.simps) simp
  next
    case False
    with 1(2) have k: "1 < k" by (cases k; cases "k - 1") auto
    then obtain j where j: "k = Suc j" "0 < j" by (cases k) auto
    from 1(2) j have "n div 256 < 256 ^ j"
      by (simp add: less_mult_imp_div_less mult.commute)
    with 1(1) False j have "length (be_bytes (n div 256)) \<le> j" by simp
    with False j show ?thesis by (subst be_bytes.simps) simp
  qed
qed

lemma unat_and_0x7f: "unat ((b :: byte) AND 0x7f) = unat b mod 128"
proof -
  have "(0x7f :: byte) = mask 7" by (simp add: mask_eq_exp_minus_1)
  then have "b AND 0x7f = take_bit 7 b" by (simp add: take_bit_eq_mask)
  then show ?thesis by (simp add: take_bit_eq_mod unat_mod)
qed

lemma and_0x80_iff: "((b :: byte) AND 0x80 = 0) = (unat b < 128)"
proof -
  have lt: "unat b < 256" using unsigned_less[of b] by simp
  have "(0x80 :: byte) = 2 ^ 7" by simp
  then have "(b AND 0x80 = 0) = (\<not> bit b 7)"
    using and_exp_eq_0_iff_not_bit[of b 7] by simp
  also have "bit b 7 = bit (unat b) 7" by (simp add: bit_unsigned_iff)
  also have "\<dots> = odd (unat b div 128)" by (simp add: bit_iff_odd)
  also have "(\<not> odd (unat b div 128)) = (unat b < 128)"
  proof (cases "unat b < 128")
    case True
    then show ?thesis by simp
  next
    case False
    with lt have "unat b div 128 = 1" by linarith
    with False show ?thesis by simp
  qed
  finally show ?thesis .
qed

lemma unat_byte_of_nat: "m < 256 \<Longrightarrow> unat (of_nat m :: byte) = m"
  by (simp add: unat_of_nat)

lemma decode_length_short:
  assumes "n \<le> 127"
  shows "decode_length (of_nat n # rest) = Some (n, rest)"
proof -
  have "unat (of_nat n :: byte) = n" using assms by (intro unat_byte_of_nat) simp
  then show ?thesis using assms by (simp add: decode_length_def and_0x80_iff)
qed

lemma decode_length_long:
  assumes "length bs \<le> 127" and "0 < length bs"
  shows "decode_length (of_nat (0x80 + length bs) # bs @ rest) = Some (be_nat bs 0, rest)"
proof -
  define b :: byte where "b = of_nat (0x80 + length bs)"
  have u: "unat b = 0x80 + length bs"
    unfolding b_def using assms by (intro unat_byte_of_nat) simp
  have "decode_length (b # bs @ rest) = Some (be_nat bs 0, rest)"
    using assms by (simp add: decode_length_def and_0x80_iff unat_and_0x7f u)
  then show ?thesis by (simp only: b_def)
qed

lemma decode_encode_length:
  assumes "n < 256 ^ 127"
  shows "decode_length (encode_length n @ rest) = Some (n, rest)"
proof (cases "n \<le> 127")
  case True
  then show ?thesis
    by (simp add: encode_length_def decode_length_short)
next
  case False
  have k: "length (be_bytes n) \<le> 127"
    using assms by (rule length_be_bytes) simp
  have "decode_length (of_nat (0x80 + length (be_bytes n)) # be_bytes n @ rest) =
          Some (be_nat (be_bytes n) 0, rest)"
    using k length_be_bytes_pos by (rule decode_length_long)
  with False show ?thesis
    by (simp only: encode_length_def be_nat_be_bytes if_False append_Cons)
qed

lemma Decode_entry:
  assumes "length v < 256 ^ 127"
  shows "Decode (encode_entry t v @ rest) =
           (case Decode rest of Inl err \<Rightarrow> Inl err | Inr es \<Rightarrow> Inr (\<lparr>tv_tag = t, tv_value = v\<rparr> # es))"
  using decode_encode_length[OF assms, of "v @ rest"]
  by (simp add: encode_entry_def split: sum.splits)

lemma Decode_Encode:
  assumes "\<forall>e\<in>set es. length (tv_value e) < 256 ^ 127"
  shows "Decode (Encode es) = Inr es"
  using assms
proof (induction es)
  case Nil
  show ?case by (simp add: Encode_def)
next
  case (Cons e es)
  then have IH: "Decode (Encode es) = Inr es" by simp
  have "Encode (e # es) = encode_entry (tv_tag e) (tv_value e) @ Encode es"
    by (simp add: Encode_def)
  with Cons.prems IH show ?case
    by (simp add: Decode_entry)
qed

lemma decode_length_append:
  assumes "decode_length buf = Some (n, rest)"
  shows "decode_length (buf @ x) = Some (n, rest @ x)"
  using assms
  by (auto simp: decode_length_def Let_def split: list.splits if_splits)

lemma Decode_append:
  assumes "Decode pre = Inr es"
  shows "Decode (pre @ x) = (case Decode x of Inl err \<Rightarrow> Inl err | Inr es' \<Rightarrow> Inr (es @ es'))"
  using assms
proof (induction pre arbitrary: es rule: Decode.induct)
  case 1
  then show ?case by (simp split: sum.splits)
next
  case (2 t buf)
  from "2.prems" obtain n rest es' where
    dl: "decode_length buf = Some (n, rest)" and le: "n \<le> length rest" and
    d: "Decode (drop n rest) = Inr es'" and es: "es = \<lparr>tv_tag = t, tv_value = take n rest\<rparr> # es'"
    by (auto split: option.splits if_splits sum.splits)
  have "Decode (drop n rest @ x) = (case Decode x of Inl err \<Rightarrow> Inl err | Inr es'' \<Rightarrow> Inr (es' @ es''))"
    using "2.IH"[OF dl refl _ d] le by simp
  with dl le show ?case
    by (simp add: decode_length_append[OF dl] es split: sum.splits)
qed

section \<open>Lemmas: substring search\<close>







section \<open>Concrete runs on the scripted transport\<close>

lemma write_spec_no_data: "write_spec pad [] = []"
  by (simp add: write_spec_def Encode_def)

lemma send_work:
  "send scripted write_spec read_spec session 0x00 insList 0x00 0x00 []
     \<lparr>trace = [], dev = token [[0x72, 0x05, 0x21, 0x77, 0x6f, 0x72, 0x6b, 0x90, 0x00]]\<rparr> =
   Some (Inr [\<lparr>tv_tag = 0x72, tv_value = 0x21 # bytes ''work''\<rparr>],
         \<lparr>trace = [EvTransmit [0x00, 0xA1, 0x00, 0x00]], dev = token []\<rparr>)"
  unfolding send_def
  by (subst send_loop.simps)
     (simp add: call_def scripted_def token_def session_def insList_def write_spec_no_data
        IsMore_def IsSuccess_def read_spec_def decode_length_def)

lemma send_empty_value:
  "send scripted write_spec read_spec session 0x00 insList 0x00 0x00 []
     \<lparr>trace = [], dev = token [[0x72, 0x00, 0x73, 0x00, 0x90, 0x00]]\<rparr> =
   Some (Inr [\<lparr>tv_tag = 0x72, tv_value = []\<rparr>, \<lparr>tv_tag = 0x73, tv_value = []\<rparr>],
         \<lparr>trace = [EvTransmit [0x00, 0xA1, 0x00, 0x00]], dev = token []\<rparr>)"
  unfolding send_def
  by (subst send_loop.simps)
     (simp add: call_def scripted_def token_def session_def insList_def write_spec_no_data
        IsMore_def IsSuccess_def read_spec_def decode_length_def)

lemma send_key_entry:
  "send scripted write_spec read_spec session 0x00 insList 0x00 0x00 []
     \<lparr>trace = [], dev = token [[0x72, 0x02, 0x21, 0x77, 0x73, 0x01, 0xAA, 0x90, 0x00]]\<rparr> =
   Some (Inr ([\<lparr>tv_tag = 0x72, tv_value = [0x21, 0x77]\<rparr>] @ \<lparr>tv_tag = 0x73, tv_value = [0xAA]\<rparr> # []),
         \<lparr>trace = [EvTransmit [0x00, 0xA1, 0x00, 0x00]], dev = token []\<rparr>)"
  unfolding send_def
  by (subst send_loop.simps)
     (simp add: call_def scripted_def token_def session_def insList_def write_spec_no_data
        IsMore_def IsSuccess_def read_spec_def decode_length_def)

lemma transmits_chain_run:
  "transmits scripted 2 [[0x00, 0xA1, 0x00, 0x00], [0x00, 0xA5, 0x00, 0x00], [0x00, 0xA5, 0x00, 0x00]]
     (token [[0x72, 0x05, 0x21, 0x61, 0x10], [0x77, 0x6f, 0x61, 0x05], [0x72, 0x6b, 0x90, 0x00]]) =
   ([Inr [0x72, 0x05, 0x21, 0x61, 0x10], Inr [0x77, 0x6f, 0x61, 0x05], Inr [0x72, 0x6b, 0x90, 0x00]],
    token [])"
  by (simp add: scripted_def token_def)

lemma read_spec_work:
  "read_spec [0x72, 0x05, 0x21, 0x77, 0x6f, 0x72, 0x6b] =
     [\<lparr>tv_tag = 0x72, tv_value = 0x21 # bytes ''work''\<rparr>]"
  by (simp add: read_spec_def decode_length_def)




section \<open>The credential list command: claims\<close>

text \<open>
  Claim C1, as amended. When every entry of the decoded list response has the tag 0x72
  (name-list) and a non-empty value, \<^verbatim>\<open>List\<close> returns one credential per entry, in
  the order of the response: the algorithm is the low nibble of \<^verbatim>\<open>value[0]\<close>, the
  type is \<^verbatim>\<open>value[0] & 0xf0\<close>, that is the high nibble left in its place and not
  shifted down, and the name is the rest of the value. On the single entry
  (0x72, [0x21] ++ "work") the one credential has algorithm 1, type 0x20 and name "work".
\<close>

theorem List_credentials:
  assumes "send sc wr rd oath 0x00 insList 0x00 0x00 [] w = Some (Inr res, w')"
      and "\<forall>e\<in>set res. tv_tag e = tagNameList \<and> tv_value e \<noteq> []"
  shows "List sc wr rd oath w =
           Some (Inr (map (\<lambda>e. \<lparr>Algorithm = hd (tv_value e) AND 0x0f,
                                 Type = hd (tv_value e) AND 0xf0,
                                 Name = tl (tv_value e)\<rparr>) res), w')"
  using assms by (simp add: List_def List_entries_ok tagNameList_def)

text \<open>The run on the response \<^verbatim>\<open>72 05 21 "work" 90 00\<close>.\<close>

theorem List_credentials_witness:
  "send scripted write_spec read_spec session 0x00 insList 0x00 0x00 []
     \<lparr>trace = [], dev = token [[0x72, 0x05, 0x21, 0x77, 0x6f, 0x72, 0x6b, 0x90, 0x00]]\<rparr> =
   Some (Inr [\<lparr>tv_tag = 0x72, tv_value = 0x21 # bytes ''work''\<rparr>],
         \<lparr>trace = [EvTransmit [0x00, 0xA1, 0x00, 0x00]], dev = token []\<rparr>)
   \<and> tv_tag \<lparr>tv_tag = 0x72, tv_value = 0x21 # bytes ''work''\<rparr> = tagNameList
   \<and> tv_value \<lparr>tv_tag = 0x72, tv_value = 0x21 # bytes ''work''\<rparr> \<noteq> []
   \<and> List scripted write_spec read_spec session
        \<lparr>trace = [], dev = token [[0x72, 0x05, 0x21, 0x77, 0x6f, 0x72, 0x6b, 0x90, 0x00]]\<rparr> =
      Some (Inr [\<lparr>Algorithm = 1, Type = 0x20, Name = bytes ''work''\<rparr>],
            \<lparr>trace = [EvTransmit [0x00, 0xA1, 0x00, 0x00]], dev = token []\<rparr>)"
  using List_credentials[OF send_work] send_work by (simp add: tagNameList_def)

text \<open>
  Claim C1 as it is stated gives the type of that credential as 2; the code gives 0x20.
\<close>

theorem List_type_counterexample:
  "List scripted write_spec read_spec session
        \<lparr>trace = [], dev = token [[0x72, 0x05, 0x21, 0x77, 0x6f, 0x72, 0x6b, 0x90, 0x00]]\<rparr> =
      Some (Inr [\<lparr>Algorithm = 1, Type = 0x20, Name = bytes ''work''\<rparr>],
            \<lparr>trace = [EvTransmit [0x00, 0xA1, 0x00, 0x00]], dev = token []\<rparr>)
   \<and> List scripted write_spec read_spec session
        \<lparr>trace = [], dev = token [[0x72, 0x05, 0x21, 0x77, 0x6f, 0x72, 0x6b, 0x90, 0x00]]\<rparr> \<noteq>
      Some (Inr [\<lparr>Algorithm = 1, Type = 2, Name = bytes ''work''\<rparr>],
            \<lparr>trace = [EvTransmit [0x00, 0xA1, 0x00, 0x00]], dev = token []\<rparr>)"
  using send_work by (simp add: List_def)

text \<open>
  Claim C8, as amended. When the decoded response has an entry whose tag is not 0x72,
  and every entry before the first such entry has a non-empty value, \<^verbatim>\<open>List\<close> fails
  the whole call with \<^verbatim>\<open>UnknownTag\<close> carrying the tag of that entry, and returns no
  credentials.
\<close>

theorem List_unknown_tag:
  assumes "send sc wr rd oath 0x00 insList 0x00 0x00 [] w = Some (Inr (pre @ e # post), w')"
      and "\<forall>x\<in>set pre. tv_tag x = tagNameList \<and> tv_value x \<noteq> []"
      and "tv_tag e \<noteq> tagNameList"
  shows "List sc wr rd oath w = Some (Inl (UnknownTag (tv_tag e)), w')"
  using assms by (simp add: List_def List_entries_unknown tagNameList_def)

text \<open>The run on a name-list entry followed by an entry with the tag 0x73.\<close>

theorem List_unknown_tag_witness:
  "send scripted write_spec read_spec session 0x00 insList 0x00 0x00 []
     \<lparr>trace = [], dev = token [[0x72, 0x02, 0x21, 0x77, 0x73, 0x01, 0xAA, 0x90, 0x00]]\<rparr> =
   Some (Inr ([\<lparr>tv_tag = 0x72, tv_value = [0x21, 0x77]\<rparr>] @ \<lparr>tv_tag = 0x73, tv_value = [0xAA]\<rparr> # []),
         \<lparr>trace = [EvTransmit [0x00, 0xA1, 0x00, 0x00]], dev = token []\<rparr>)
   \<and> tv_tag \<lparr>tv_tag = 0x72, tv_value = [0x21, 0x77]\<rparr> = tagNameList
   \<and> tv_value \<lparr>tv_tag = 0x72, tv_value = [0x21, 0x77]\<rparr> \<noteq> []
   \<and> tv_tag \<lparr>tv_tag = 0x73, tv_value = [0xAA]\<rparr> \<noteq> tagNameList
   \<and> List scripted write_spec read_spec session
        \<lparr>trace = [], dev = token [[0x72, 0x02, 0x21, 0x77, 0x73, 0x01, 0xAA, 0x90, 0x00]]\<rparr> =
      Some (Inl (UnknownTag 0x73), \<lparr>trace = [EvTransmit [0x00, 0xA1, 0x00, 0x00]], dev = token []\<rparr>)"
  using List_unknown_tag[OF send_key_entry] send_key_entry by (simp add: tagNameList_def)

text \<open>
  Claim C8 as it is stated covers every response with an entry of another tag. On the
  entries (0x72, []) and (0x73, []) the call ends in the slice-bounds panic of the first
  entry and never reaches the tag 0x73.
\<close>

theorem List_unknown_tag_counterexample:
  "send scripted write_spec read_spec session 0x00 insList 0x00 0x00 []
     \<lparr>trace = [], dev = token [[0x72, 0x00, 0x73, 0x00, 0x90, 0x00]]\<rparr> =
   Some (Inr [\<lparr>tv_tag = 0x72, tv_value = []\<rparr>, \<lparr>tv_tag = 0x73, tv_value = []\<rparr>],
         \<lparr>trace = [EvTransmit [0x00, 0xA1, 0x00, 0x00]], dev = token []\<rparr>)
   \<and> List scripted write_spec read_spec session
        \<lparr>trace = [], dev = token [[0x72, 0x00, 0x73, 0x00, 0x90, 0x00]]\<rparr> =
      Some (Inl (Panic SliceBoundsOutOfRange), \<lparr>trace = [EvTransmit [0x00, 0xA1, 0x00, 0x00]], dev = token []\<rparr>)
   \<and> List scripted write_spec read_spec session
        \<lparr>trace = [], dev = token [[0x72, 0x00, 0x73, 0x00, 0x90, 0x00]]\<rparr> \<noteq>
      Some (Inl (UnknownTag 0x73), \<lparr>trace = [EvTransmit [0x00, 0xA1, 0x00, 0x00]], dev = token []\<rparr>)"
  using send_empty_value by (simp add: List_def)

text \<open>
  Claim C10. \<^verbatim>\<open>List\<close> reads \<^verbatim>\<open>value[0]\<close> and \<^verbatim>\<open>value[1:]\<close> of every entry with
  the tag 0x72 without checking its length: the call ends in a slice-bounds panic, the
  one that \<^verbatim>\<open>value[1:]\<close> raises on an empty value, exactly when the loop meets an entry
  with the tag 0x72 and an empty value, all entries before it being name-list entries
  with a non-empty value. So a response all of whose 0x72 entries have length at least
  1 never panics.
\<close>

theorem List_empty_value:
  assumes "send sc wr rd oath 0x00 insList 0x00 0x00 [] w = Some (Inr res, w')"
  shows "(List sc wr rd oath w = Some (Inl (Panic SliceBoundsOutOfRange), w')) =
         (\<exists>pre e post. res = pre @ e # post
            \<and> (\<forall>x\<in>set pre. tv_tag x = tagNameList \<and> tv_value x \<noteq> [])
            \<and> tv_tag e = tagNameList \<and> tv_value e = [])"
proof
  assume "List sc wr rd oath w = Some (Inl (Panic SliceBoundsOutOfRange), w')"
  with assms have "List_entries res [] = Inl (Panic SliceBoundsOutOfRange)"
    by (simp add: List_def)
  then show "\<exists>pre e post. res = pre @ e # post
            \<and> (\<forall>x\<in>set pre. tv_tag x = tagNameList \<and> tv_value x \<noteq> [])
            \<and> tv_tag e = tagNameList \<and> tv_value e = []"
    unfolding tagNameList_def by (rule List_entries_panic)
next
  assume "\<exists>pre e post. res = pre @ e # post
            \<and> (\<forall>x\<in>set pre. tv_tag x = tagNameList \<and> tv_value x \<noteq> [])
            \<and> tv_tag e = tagNameList \<and> tv_value e = []"
  then obtain pre e post where "res = pre @ e # post"
      "\<forall>x\<in>set pre. tv_tag x = 0x72 \<and> tv_value x \<noteq> []" "tv_tag e = 0x72" "tv_value e = []"
    unfolding tagNameList_def by blast
  then have "List_entries res [] = Inl (Panic SliceBoundsOutOfRange)"
    by (simp add: List_entries_empty)
  with assms show "List sc wr rd oath w = Some (Inl (Panic SliceBoundsOutOfRange), w')"
    by (simp add: List_def)
qed

text \<open>The run on the response \<^verbatim>\<open>72 00 73 00 90 00\<close>.\<close>

theorem List_empty_value_witness:
  "send scripted write_spec read_spec session 0x00 insList 0x00 0x00 []
     \<lparr>trace = [], dev = token [[0x72, 0x00, 0x73, 0x00, 0x90, 0x00]]\<rparr> =
   Some (Inr [\<lparr>tv_tag = 0x72, tv_value = []\<rparr>, \<lparr>tv_tag = 0x73, tv_value = []\<rparr>],
         \<lparr>trace = [EvTransmit [0x00, 0xA1, 0x00, 0x00]], dev = token []\<rparr>)
   \<and> tv_tag \<lparr>tv_tag = 0x72, tv_value = []\<rparr> = tagNameList
   \<and> tv_value \<lparr>tv_tag = 0x72, tv_value = []\<rparr> = []
   \<and> List scripted write_spec read_spec session
        \<lparr>trace = [], dev = token [[0x72, 0x00, 0x73, 0x00, 0x90, 0x00]]\<rparr> =
      Some (Inl (Panic SliceBoundsOutOfRange), \<lparr>trace = [EvTransmit [0x00, 0xA1, 0x00, 0x00]], dev = token []\<rparr>)"
proof -
  let ?a = "\<lparr>tv_tag = 0x72, tv_value = []\<rparr>" and ?b = "\<lparr>tv_tag = 0x73, tv_value = []\<rparr>"
  have "[?a, ?b] = [] @ ?a # [?b] \<and> (\<forall>x\<in>set ([] :: tv list). tv_tag x = tagNameList \<and> tv_value x \<noteq> [])
      \<and> tv_tag ?a = tagNameList \<and> tv_value ?a = []"
    by (simp add: tagNameList_def)
  then have "\<exists>pre e post. [?a, ?b] = pre @ e # post
      \<and> (\<forall>x\<in>set pre. tv_tag x = tagNameList \<and> tv_value x \<noteq> [])
      \<and> tv_tag e = tagNameList \<and> tv_value e = []"
    by blast
  with List_empty_value[OF send_empty_value] send_empty_value show ?thesis
    by (simp add: tagNameList_def)
qed

section \<open>The transceiver: claims\<close>

text \<open>
  Claim C3. Take a transport that answers the original command and then each
  send-remaining command with a response whose status word is 0x61xx, any number of
  times (the responses \<open>chunks\<close>, each a payload and the byte xx), and then with a
  response whose status word is 0x9000. Then \<^verbatim>\<open>send\<close> returns: it has transmitted
  \<^verbatim>\<open>[cla, ins, p1, p2]\<close> followed by the encoding of the data with pad 0x00 first and
  the fixed APDU \<^verbatim>\<open>[0x00, 0xA5, 0x00, 0x00]\<close> after every more-data status, once per
  response and nothing else, and its result is the decoding of the payloads
  concatenated in the order of arrival, each being its response without the two status
  bytes.
\<close>

theorem send_reassembles:
  assumes "transmits sc (oath_card oath)
             (([cla, ins, p1, p2] @ wr 0x00 data)
                # replicate (length chunks) [0x00, insSendRemaining, 0x00, 0x00]) (dev w) =
           (map (\<lambda>(p, xx). Inr (p @ [0x61, xx])) chunks @ [Inr (p @ [0x90, 0x00])], d')"
  shows "send sc wr rd oath cla ins p1 p2 data w =
           Some (Inr (rd (concat (map fst chunks) @ p)),
                 \<lparr>trace = trace w @ map EvTransmit
                    (([cla, ins, p1, p2] @ wr 0x00 data)
                       # replicate (length chunks) [0x00, insSendRemaining, 0x00, 0x00]),
                  dev = d'\<rparr>)"
proof -
  have "send_loop sc rd (oath_card oath) ([cla, ins, p1, p2] @ wr 0x00 data) [] w =
      Some (case (Inr (p @ [0x90, 0x00]) :: cause + byte list) of
              Inl err \<Rightarrow> Inl (FailedToTransmit err)
            | Inr res \<Rightarrow>
                if length res < 2 then Inl (Panic SliceBoundsOutOfRange)
                else if IsSuccess (drop (length res - 2) res)
                  then Inr (rd ([] @ concat (map fst chunks) @ take (length res - 2) res))
                  else Inl (Code (drop (length res - 2) res)),
            \<lparr>trace = trace w @ map EvTransmit
               (([cla, ins, p1, p2] @ wr 0x00 data) # replicate (length chunks) [0x00, 0xa5, 0x00, 0x00]),
             dev = d'\<rparr>)"
  proof (rule send_loop_chain)
    show "transmits sc (oath_card oath)
            (([cla, ins, p1, p2] @ wr 0x00 data) # replicate (length chunks) [0x00, 0xa5, 0x00, 0x00]) (dev w) =
          (map (\<lambda>(p, xx). Inr (p @ [0x61, xx])) chunks @ [Inr (p @ [0x90, 0x00])], d')"
      using assms by (simp only: insSendRemaining_def)
  next
    fix res :: "byte list"
    assume "Inr (p @ [0x90, 0x00]) = (Inr res :: cause + byte list)"
    then have "res = p @ [0x90, 0x00]" by simp
    then show "\<not> IsMore (drop (length res - 2) res)" by (simp add: IsMore_def)
  qed
  then show ?thesis
    by (simp add: send_def insSendRemaining_def IsSuccess_def)
qed

text \<open>
  The run on the status words 0x61 0x10, 0x61 0x05 and 0x90 0x00: three transmits, the
  second and the third being the send-remaining APDU, and the three fragments decoded as
  one buffer.
\<close>

theorem send_reassembles_witness:
  "transmits scripted (oath_card session)
     (([0x00, insList, 0x00, 0x00] @ write_spec 0x00 [])
        # replicate (length [([0x72, 0x05, 0x21], 0x10), ([0x77, 0x6f], 0x05) :: byte list \<times> byte])
            [0x00, insSendRemaining, 0x00, 0x00])
     (token [[0x72, 0x05, 0x21, 0x61, 0x10], [0x77, 0x6f, 0x61, 0x05], [0x72, 0x6b, 0x90, 0x00]]) =
   ([Inr [0x72, 0x05, 0x21, 0x61, 0x10], Inr [0x77, 0x6f, 0x61, 0x05], Inr [0x72, 0x6b, 0x90, 0x00]],
    token [])
   \<and> send scripted write_spec read_spec session 0x00 insList 0x00 0x00 []
        \<lparr>trace = [],
         dev = token [[0x72, 0x05, 0x21, 0x61, 0x10], [0x77, 0x6f, 0x61, 0x05], [0x72, 0x6b, 0x90, 0x00]]\<rparr> =
      Some (Inr [\<lparr>tv_tag = 0x72, tv_value = 0x21 # bytes ''work''\<rparr>],
            \<lparr>trace = [EvTransmit [0x00, 0xA1, 0x00, 0x00], EvTransmit [0x00, 0xA5, 0x00, 0x00],
                      EvTransmit [0x00, 0xA5, 0x00, 0x00]],
             dev = token []\<rparr>)"
proof -
  let ?w = "\<lparr>trace = [],
     dev = token [[0x72, 0x05, 0x21, 0x61, 0x10], [0x77, 0x6f, 0x61, 0x05], [0x72, 0x6b, 0x90, 0x00]]\<rparr>"
  have run: "transmits scripted (oath_card session)
     (([0x00, insList, 0x00, 0x00] @ write_spec 0x00 [])
        # replicate (length [([0x72, 0x05, 0x21], 0x10), ([0x77, 0x6f], 0x05) :: byte list \<times> byte])
            [0x00, insSendRemaining, 0x00, 0x00]) (dev ?w) =
     (map (\<lambda>(p, xx). Inr (p @ [0x61, xx])) [([0x72, 0x05, 0x21], 0x10), ([0x77, 0x6f], 0x05)]
        @ [Inr ([0x72, 0x6b] @ [0x90, 0x00])], token [])"
    using transmits_chain_run
    by (simp add: session_def insList_def insSendRemaining_def write_spec_no_data)
  from send_reassembles[where wr = write_spec and data = "[]" and rd = read_spec, OF run] run show ?thesis
    by (simp add: insList_def insSendRemaining_def write_spec_no_data read_spec_work)
qed

text \<open>
  Claim C4. When the responses carry more-data status words and then a status word
  that is neither success nor more data, \<^verbatim>\<open>send\<close> stops at that response: it
  transmits nothing after it, and returns the status word itself as the error. The
  result does not depend on the decoder \<open>rd\<close>, which is not applied.
\<close>

theorem send_failure_status:
  assumes "transmits sc (oath_card oath)
             (([cla, ins, p1, p2] @ wr 0x00 data)
                # replicate (length chunks) [0x00, insSendRemaining, 0x00, 0x00]) (dev w) =
           (map (\<lambda>(p, xx). Inr (p @ [0x61, xx])) chunks @ [Inr (p @ sw)], d')"
      and "length sw = 2" and "\<not> IsMore sw" and "\<not> IsSuccess sw"
  shows "send sc wr rd oath cla ins p1 p2 data w =
           Some (Inl (Code sw),
                 \<lparr>trace = trace w @ map EvTransmit
                    (([cla, ins, p1, p2] @ wr 0x00 data)
                       # replicate (length chunks) [0x00, insSendRemaining, 0x00, 0x00]),
                  dev = d'\<rparr>)"
proof -
  have "send_loop sc rd (oath_card oath) ([cla, ins, p1, p2] @ wr 0x00 data) [] w =
      Some (case (Inr (p @ sw) :: cause + byte list) of
              Inl err \<Rightarrow> Inl (FailedToTransmit err)
            | Inr res \<Rightarrow>
                if length res < 2 then Inl (Panic SliceBoundsOutOfRange)
                else if IsSuccess (drop (length res - 2) res)
                  then Inr (rd ([] @ concat (map fst chunks) @ take (length res - 2) res))
                  else Inl (Code (drop (length res - 2) res)),
            \<lparr>trace = trace w @ map EvTransmit
               (([cla, ins, p1, p2] @ wr 0x00 data) # replicate (length chunks) [0x00, 0xa5, 0x00, 0x00]),
             dev = d'\<rparr>)"
  proof (rule send_loop_chain)
    show "transmits sc (oath_card oath)
            (([cla, ins, p1, p2] @ wr 0x00 data) # replicate (length chunks) [0x00, 0xa5, 0x00, 0x00]) (dev w) =
          (map (\<lambda>(p, xx). Inr (p @ [0x61, xx])) chunks @ [Inr (p @ sw)], d')"
      using assms(1) by (simp only: insSendRemaining_def)
  next
    fix res :: "byte list"
    assume "Inr (p @ sw) = (Inr res :: cause + byte list)"
    then have "res = p @ sw" by simp
    with assms(2,3) show "\<not> IsMore (drop (length res - 2) res)" by simp
  qed
  with assms(2,4) show ?thesis
    by (simp add: send_def insSendRemaining_def)
qed

text \<open>
  The run on a more-data response followed by the status word 0x6A 0x82; the response
  scripted after it is still with the token.
\<close>

theorem send_failure_status_witness:
  "transmits scripted (oath_card session)
     (([0x00, insList, 0x00, 0x00] @ write_spec 0x00 [])
        # replicate (length [([0x72, 0x05], 0x10) :: byte list \<times> byte])
            [0x00, insSendRemaining, 0x00, 0x00])
     (token [[0x72, 0x05, 0x61, 0x10], [0x6A, 0x82], [0x21, 0x90, 0x00]]) =
   ([Inr [0x72, 0x05, 0x61, 0x10], Inr [0x6A, 0x82]], token [[0x21, 0x90, 0x00]])
   \<and> length [0x6A, 0x82 :: byte] = 2
   \<and> \<not> IsMore [0x6A, 0x82] \<and> \<not> IsSuccess [0x6A, 0x82]
   \<and> send scripted write_spec read_spec session 0x00 insList 0x00 0x00 []
        \<lparr>trace = [], dev = token [[0x72, 0x05, 0x61, 0x10], [0x6A, 0x82], [0x21, 0x90, 0x00]]\<rparr> =
      Some (Inl (Code [0x6A, 0x82]),
            \<lparr>trace = [EvTransmit [0x00, 0xA1, 0x00, 0x00], EvTransmit [0x00, 0xA5, 0x00, 0x00]],
             dev = token [[0x21, 0x90, 0x00]]\<rparr>)"
proof -
  let ?w = "\<lparr>trace = [], dev = token [[0x72, 0x05, 0x61, 0x10], [0x6A, 0x82], [0x21, 0x90, 0x00]]\<rparr>"
  have run: "transmits scripted (oath_card session)
     (([0x00, insList, 0x00, 0x00] @ write_spec 0x00 [])
        # replicate (length [([0x72, 0x05], 0x10) :: byte list \<times> byte])
            [0x00, insSendRemaining, 0x00, 0x00]) (dev ?w) =
     (map (\<lambda>(p, xx). Inr (p @ [0x61, xx])) [([0x72, 0x05], 0x10)] @ [Inr ([] @ [0x6A, 0x82])],
      token [[0x21, 0x90, 0x00]])"
    by (simp add: scripted_def token_def session_def insList_def insSendRemaining_def
          write_spec_no_data)
  have sw: "length [0x6A, 0x82 :: byte] = 2" "\<not> IsMore [0x6A, 0x82]" "\<not> IsSuccess [0x6A, 0x82]"
    by (simp_all add: IsMore_def IsSuccess_def)
  from send_failure_status[where wr = write_spec and data = "[]" and rd = read_spec, OF run sw]
    run sw show ?thesis
    by (simp add: insList_def insSendRemaining_def write_spec_no_data)
qed

text \<open>
  Claim C9. \<^verbatim>\<open>send\<close> takes the last two bytes of every response as the status
  word and the bytes before them as the payload, without checking the length. For the
  response that ends the loop: if it has fewer than two bytes the call ends in a
  slice-bounds panic; if it has at least two, the status word \<^verbatim>\<open>res[len(res)-2:]\<close>
  decides between the decoded payload, to which \<^verbatim>\<open>res[0:len(res)-2]\<close> has been
  appended, and the status word as the error.
\<close>

theorem send_short_response:
  assumes "transmits sc (oath_card oath)
             (([cla, ins, p1, p2] @ wr 0x00 data)
                # replicate (length chunks) [0x00, insSendRemaining, 0x00, 0x00]) (dev w) =
           (map (\<lambda>(p, xx). Inr (p @ [0x61, xx])) chunks @ [Inr res], d')"
      and "2 \<le> length res \<longrightarrow> \<not> IsMore (drop (length res - 2) res)"
  shows "send sc wr rd oath cla ins p1 p2 data w =
           Some (if length res < 2 then Inl (Panic SliceBoundsOutOfRange)
                 else if IsSuccess (drop (length res - 2) res)
                   then Inr (rd (concat (map fst chunks) @ take (length res - 2) res))
                   else Inl (Code (drop (length res - 2) res)),
                 \<lparr>trace = trace w @ map EvTransmit
                    (([cla, ins, p1, p2] @ wr 0x00 data)
                       # replicate (length chunks) [0x00, insSendRemaining, 0x00, 0x00]),
                  dev = d'\<rparr>)"
proof -
  have "send_loop sc rd (oath_card oath) ([cla, ins, p1, p2] @ wr 0x00 data) [] w =
      Some (case (Inr res :: cause + byte list) of
              Inl err \<Rightarrow> Inl (FailedToTransmit err)
            | Inr res \<Rightarrow>
                if length res < 2 then Inl (Panic SliceBoundsOutOfRange)
                else if IsSuccess (drop (length res - 2) res)
                  then Inr (rd ([] @ concat (map fst chunks) @ take (length res - 2) res))
                  else Inl (Code (drop (length res - 2) res)),
            \<lparr>trace = trace w @ map EvTransmit
               (([cla, ins, p1, p2] @ wr 0x00 data) # replicate (length chunks) [0x00, 0xa5, 0x00, 0x00]),
             dev = d'\<rparr>)"
  proof (rule send_loop_chain)
    show "transmits sc (oath_card oath)
            (([cla, ins, p1, p2] @ wr 0x00 data) # replicate (length chunks) [0x00, 0xa5, 0x00, 0x00]) (dev w) =
          (map (\<lambda>(p, xx). Inr (p @ [0x61, xx])) chunks @ [Inr res], d')"
      using assms(1) by (simp only: insSendRemaining_def)
  next
    fix res' :: "byte list"
    assume "Inr res = (Inr res' :: cause + byte list)" and "2 \<le> length res'"
    with assms(2) show "\<not> IsMore (drop (length res' - 2) res')" by simp
  qed
  then show ?thesis
    by (simp add: send_def insSendRemaining_def)
qed

text \<open>
  The run on a more-data response followed by a response of one byte.
\<close>

theorem send_short_response_witness:
  "transmits scripted (oath_card session)
     (([0x00, insList, 0x00, 0x00] @ write_spec 0x00 [])
        # replicate (length [([0x72, 0x05], 0x10) :: byte list \<times> byte])
            [0x00, insSendRemaining, 0x00, 0x00])
     (token [[0x72, 0x05, 0x61, 0x10], [0x90]]) =
   ([Inr [0x72, 0x05, 0x61, 0x10], Inr [0x90]], token [])
   \<and> \<not> 2 \<le> length [0x90 :: byte]
   \<and> send scripted write_spec read_spec session 0x00 insList 0x00 0x00 []
        \<lparr>trace = [], dev = token [[0x72, 0x05, 0x61, 0x10], [0x90]]\<rparr> =
      Some (Inl (Panic SliceBoundsOutOfRange),
            \<lparr>trace = [EvTransmit [0x00, 0xA1, 0x00, 0x00], EvTransmit [0x00, 0xA5, 0x00, 0x00]],
             dev = token []\<rparr>)"
proof -
  let ?w = "\<lparr>trace = [], dev = token [[0x72, 0x05, 0x61, 0x10], [0x90]]\<rparr>"
  have run: "transmits scripted (oath_card session)
     (([0x00, insList, 0x00, 0x00] @ write_spec 0x00 [])
        # replicate (length [([0x72, 0x05], 0x10) :: byte list \<times> byte])
            [0x00, insSendRemaining, 0x00, 0x00]) (dev ?w) =
     (map (\<lambda>(p, xx). Inr (p @ [0x61, xx])) [([0x72, 0x05], 0x10)] @ [Inr [0x90]], token [])"
    by (simp add: scripted_def token_def session_def insList_def insSendRemaining_def
          write_spec_no_data)
  have short: "2 \<le> length [0x90 :: byte] \<longrightarrow> \<not> IsMore (drop (length [0x90 :: byte] - 2) [0x90])"
    by simp
  from send_short_response[where wr = write_spec and data = "[]" and rd = read_spec, OF run short]
    run show ?thesis
    by (simp add: insList_def insSendRemaining_def write_spec_no_data)
qed

section \<open>Sessions: claims\<close>

text \<open>
  Claim C2, as amended. \<^verbatim>\<open>Close\<close> disconnects the card, leaving it to other
  clients. If the disconnect fails it returns that failure wrapped as a
  \<^verbatim>\<open>DisconnectFailure\<close> and does not call \<^verbatim>\<open>Release\<close>. Only after a successful
  disconnect it releases the context, and returns the failure of the release, if any,
  wrapped as a \<^verbatim>\<open>ReleaseFailure\<close>. It never reports more than one failure.
\<close>

theorem Close_outcome:
  assumes "Disconnect sc (oath_card oath) LeaveCard (dev w) = (r1, d1)"
      and "Release sc (oath_context oath) d1 = (r2, d2)"
  shows "Close sc oath w =
           (case r1 of
              Some err \<Rightarrow>
                (Some (FailedToDisconnect err),
                 \<lparr>trace = trace w @ [EvDisconnect LeaveCard], dev = d1\<rparr>)
            | None \<Rightarrow>
                (map_option FailedToReleaseContext r2,
                 \<lparr>trace = trace w @ [EvDisconnect LeaveCard, EvRelease], dev = d2\<rparr>))"
  using assms by (cases r1; cases r2) (simp_all add: Close_def call_def)

text \<open>
  The run in which the disconnect succeeds and the release fails.
\<close>

theorem Close_outcome_witness:
  "Disconnect scripted (oath_card session) LeaveCard
     (dev \<lparr>trace = [], dev = (token [])\<lparr>script_release := Some ''invalid handle''\<rparr>\<rparr>) =
     (None, (token [])\<lparr>script_release := Some ''invalid handle''\<rparr>)
   \<and> Release scripted (oath_context session) ((token [])\<lparr>script_release := Some ''invalid handle''\<rparr>) =
     (Some ''invalid handle'', (token [])\<lparr>script_release := Some ''invalid handle''\<rparr>)
   \<and> Close scripted session \<lparr>trace = [], dev = (token [])\<lparr>script_release := Some ''invalid handle''\<rparr>\<rparr> =
     (Some (FailedToReleaseContext ''invalid handle''),
      \<lparr>trace = [EvDisconnect LeaveCard, EvRelease],
       dev = (token [])\<lparr>script_release := Some ''invalid handle''\<rparr>\<rparr>)"
proof -
  let ?d = "(token [])\<lparr>script_release := Some ''invalid handle''\<rparr>"
  have d: "Disconnect scripted (oath_card session) LeaveCard (dev \<lparr>trace = [], dev = ?d\<rparr>) = (None, ?d)"
    by (simp add: scripted_def token_def)
  have r: "Release scripted (oath_context session) ?d = (Some ''invalid handle'', ?d)"
    by (simp add: scripted_def token_def)
  from Close_outcome[OF d r] d r show ?thesis by simp
qed

text \<open>
  Claim C2 as it is stated has the release attempted after a failed disconnect and
  both failures reported. With a transport on which both calls fail, \<^verbatim>\<open>Close\<close>
  returns the failure of the disconnect alone, and \<^verbatim>\<open>Release\<close> is not among its
  calls.
\<close>

theorem Close_skips_release_counterexample:
  "Disconnect scripted (oath_card session) LeaveCard
     ((token [])\<lparr>script_disconnect := Some ''card removed'', script_release := Some ''invalid handle''\<rparr>) =
     (Some ''card removed'',
      (token [])\<lparr>script_disconnect := Some ''card removed'', script_release := Some ''invalid handle''\<rparr>)
   \<and> Release scripted (oath_context session)
     ((token [])\<lparr>script_disconnect := Some ''card removed'', script_release := Some ''invalid handle''\<rparr>) =
     (Some ''invalid handle'',
      (token [])\<lparr>script_disconnect := Some ''card removed'', script_release := Some ''invalid handle''\<rparr>)
   \<and> Close scripted session
     \<lparr>trace = [],
      dev = (token [])\<lparr>script_disconnect := Some ''card removed'', script_release := Some ''invalid handle''\<rparr>\<rparr> =
     (Some (FailedToDisconnect ''card removed''),
      \<lparr>trace = [EvDisconnect LeaveCard],
       dev = (token [])\<lparr>script_disconnect := Some ''card removed'', script_release := Some ''invalid handle''\<rparr>\<rparr>)
   \<and> EvRelease \<notin> set (trace (snd (Close scripted session
     \<lparr>trace = [],
      dev = (token [])\<lparr>script_disconnect := Some ''card removed'', script_release := Some ''invalid handle''\<rparr>\<rparr>)))"
  by (simp add: Close_def call_def scripted_def token_def)



section \<open>The codec of the specification: claims\<close>

text \<open>
  Claim C5. For every sequence of entries, decoding its encoding gives the sequence
  back: the tags, the values and the order. The values are those whose length the
  extended form can express, in at most 127 length bytes; a Go slice, whose length is
  below \<open>2 ^ 63\<close>, always is one. Values longer than 127 bytes use the extended form.
\<close>

theorem Decode_Encode_roundtrip:
  assumes "\<forall>e\<in>set es. length (tv_value e) < 256 ^ 127"
  shows "Decode (Encode es) = Inr es"
  using assms by (rule Decode_Encode)

text \<open>
  The run on two entries, the second with a value of 200 bytes, whose length is encoded
  as 0x81 0xC8.
\<close>

theorem Decode_Encode_roundtrip_witness:
  "length (tv_value \<lparr>tv_tag = 0x71, tv_value = bytes ''work''\<rparr>) < 256 ^ 127
   \<and> length (tv_value \<lparr>tv_tag = 0x73, tv_value = replicate 200 0xAB\<rparr>) < 256 ^ 127
   \<and> Encode [\<lparr>tv_tag = 0x73, tv_value = replicate 200 0xAB\<rparr>] = [0x73, 0x81, 0xC8] @ replicate 200 0xAB
   \<and> Decode (Encode [\<lparr>tv_tag = 0x71, tv_value = bytes ''work''\<rparr>,
                      \<lparr>tv_tag = 0x73, tv_value = replicate 200 0xAB\<rparr>]) =
       Inr [\<lparr>tv_tag = 0x71, tv_value = bytes ''work''\<rparr>,
            \<lparr>tv_tag = 0x73, tv_value = replicate 200 0xAB\<rparr>]"
proof -
  have enc: "Encode [\<lparr>tv_tag = 0x73, tv_value = replicate 200 0xAB\<rparr>] = [0x73, 0x81, 0xC8] @ replicate 200 0xAB"
    by (simp add: Encode_def encode_entry_def encode_length_def be_bytes.simps)
  from Decode_Encode_roundtrip[of "[\<lparr>tv_tag = 0x71, tv_value = bytes ''work''\<rparr>,
                      \<lparr>tv_tag = 0x73, tv_value = replicate 200 0xAB\<rparr>]"] enc
  show ?thesis by simp
qed

text \<open>
  Claim C6. Take a buffer that starts with any number of complete entries, followed by
  a tag and a length field that declares \<open>n\<close> bytes while fewer than \<open>n\<close> remain
  after it. \<^verbatim>\<open>Decode\<close> fails on it with \<^verbatim>\<open>TruncatedTLV\<close>. Every read of
  \<^verbatim>\<open>Decode\<close> is guarded by a comparison with the length of what remains, so the
  failure is this error and not a read beyond the buffer.
\<close>

theorem Decode_truncated:
  assumes "Decode pre = Inr es"
      and "decode_length buf = Some (n, rest)"
      and "length rest < n"
  shows "Decode (pre @ t # buf) = Inl TruncatedTLV"
  using assms(2,3) by (simp add: Decode_append[OF assms(1)])

text \<open>
  The run on a complete entry followed by a tag and the length 5 with two bytes left.
\<close>

theorem Decode_truncated_witness:
  "Decode [0x72, 0x01, 0x21] = Inr [\<lparr>tv_tag = 0x72, tv_value = [0x21]\<rparr>]
   \<and> decode_length [0x05, 0x21, 0x77] = Some (5, [0x21, 0x77])
   \<and> length [0x21, 0x77 :: byte] < 5
   \<and> decode_length [0x81, 0xC8, 0x21] = Some (200, [0x21])
   \<and> Decode ([0x72, 0x01, 0x21] @ 0x72 # [0x05, 0x21, 0x77]) = Inl TruncatedTLV"
proof -
  have p: "Decode [0x72, 0x01, 0x21] = Inr [\<lparr>tv_tag = 0x72, tv_value = [0x21]\<rparr>]"
    by (simp add: decode_length_def)
  have l: "decode_length [0x05, 0x21, 0x77] = Some (5, [0x21, 0x77])"
    by (simp add: decode_length_def)
  have l2: "decode_length [0x81, 0xC8, 0x21] = Some (200, [0x21])"
    by (simp add: decode_length_def)
  have s: "length [0x21, 0x77 :: byte] < 5" by simp
  from Decode_truncated[OF p l s, of "0x72"] p l l2 s show ?thesis by simp
qed

end
